theory Spec2Isabelle
  imports Main "HOL-Library.Sublist" "HOL-Library.AList"
begin

section \<open>The video download orchestrator of backend/server.py\<close>

text \<open>
  The development follows \<^verbatim>\<open>src/backend/server.py\<close>: the request model, the
  format selection of \<^verbatim>\<open>VideoDownloader\<close>, the extraction with its preflight size
  check and its timeout, the job table \<^verbatim>\<open>active_downloads\<close>, the semaphore and the
  HTTP endpoints that read the table.
\<close>

subsection \<open>Requests and extractor options\<close>

text \<open>
  \<^verbatim>\<open>class VideoRequest(BaseModel)\<close>: the url is kept as the string that
  \<^verbatim>\<open>str(request.url)\<close> yields.
\<close>

record VideoRequest =
  url :: string
  format :: string
  quality :: string
  audio_only :: bool
  remove_watermark :: bool

text \<open>Python's \<^verbatim>\<open>sub in s\<close> on strings.\<close>

fun str_in :: "string \<Rightarrow> string \<Rightarrow> bool" where
  "str_in sub [] = (sub = [])"
| "str_in sub (c # cs) = (prefix sub (c # cs) \<or> str_in sub cs)"

definition detect_platform :: "string \<Rightarrow> string" where
  "detect_platform u =
     (if str_in ''tiktok.com'' u then ''tiktok''
      else if str_in ''instagram.com'' u then ''instagram''
      else if str_in ''youtube.com'' u \<or> str_in ''youtu.be'' u then ''youtube''
      else if str_in ''facebook.com'' u then ''facebook''
      else if str_in ''twitter.com'' u \<or> str_in ''x.com'' u then ''twitter''
      else ''unknown'')"

text \<open>The dictionary \<^verbatim>\<open>quality_map\<close> of \<^verbatim>\<open>_get_format_string\<close>.\<close>

definition quality_map :: "string \<rightharpoonup> string" where
  "quality_map =
     [''best'' \<mapsto> ''bestvideo+bestaudio/best'',
      ''worst'' \<mapsto> ''worst'',
      ''720p'' \<mapsto> ''bestvideo[height<=720]+bestaudio/best[height<=720]'',
      ''480p'' \<mapsto> ''bestvideo[height<=480]+bestaudio/best[height<=480]'',
      ''1080p'' \<mapsto> ''bestvideo[height<=1080]+bestaudio/best[height<=1080]'']"

text \<open>\<^verbatim>\<open>d.get(k, default)\<close> on a dictionary.\<close>

definition dict_get :: "('k \<rightharpoonup> 'v) \<Rightarrow> 'k \<Rightarrow> 'v \<Rightarrow> 'v" where
  "dict_get d k dflt = (case d k of None \<Rightarrow> dflt | Some v \<Rightarrow> v)"

definition get_format_string :: "VideoRequest \<Rightarrow> string \<Rightarrow> string" where
  "get_format_string request platform =
     (if audio_only request then ''bestaudio/best''
      else if platform = ''tiktok'' \<and> remove_watermark request then ''best[ext=mp4]''
      else dict_get quality_map (quality request) ''bestvideo+bestaudio/best'')"

text \<open>
  The values of the options dictionary handed to \<^verbatim>\<open>yt_dlp.YoutubeDL\<close>. A progress
  hook is the closure of \<^verbatim>\<open>_create_progress_hook\<close>, determined by its download id.
\<close>

datatype opt_value =
    OStr string
  | OBool bool
  | OInt int
  | OTuple "string list"
  | ODict "(string \<times> opt_value) list"
  | OHooks "string list"

type_synonym options = "string \<rightharpoonup> opt_value"

definition get_tiktok_options :: "VideoRequest \<Rightarrow> options" where
  "get_tiktok_options request =
     (let options =
        [''http_headers'' \<mapsto> ODict
           [(''User-Agent'', OStr ''Mozilla/5.0 (iPhone; CPU iPhone OS 14_6 like Mac OS X) AppleWebKit/605.1.15 (KHTML, like Gecko) Version/14.1.1 Mobile/15E148 Safari/604.1''),
            (''Accept'', OStr ''*/*''),
            (''Accept-Language'', OStr ''en-US,en;q=0.9''),
            (''Accept-Encoding'', OStr ''gzip, deflate''),
            (''Connection'', OStr ''keep-alive'')]]
      in if remove_watermark request
         then options ++
           [''extractor_args'' \<mapsto> ODict
              [(''tiktok'', ODict [(''api_hostname'', OStr ''api-h2.tiktokv.com''),
                                 (''webpage_cache'', OBool True)])]]
         else options)"

definition get_instagram_options :: options where
  "get_instagram_options =
     [''http_headers'' \<mapsto> ODict
        [(''User-Agent'', OStr ''Instagram 219.0.0.12.117 Android (28/9; 480dpi; 1080x2139; samsung; SM-G973F; beyond1; exynos9820; en_US; 314665256)''),
         (''Accept'', OStr ''*/*''),
         (''Accept-Language'', OStr ''en-US,en;q=0.9'')],
      ''sleep_interval'' \<mapsto> OInt 1,
      ''max_sleep_interval'' \<mapsto> OInt 5]"

definition get_youtube_options :: "VideoRequest \<Rightarrow> options" where
  "get_youtube_options request =
     (let options =
        [''extractflat'' \<mapsto> OBool False,
         ''cookies_from_browser'' \<mapsto> OTuple [''chrome''],
         ''writeautomaticsub'' \<mapsto> OBool False,
         ''writesubtitles'' \<mapsto> OBool False]
      in if audio_only request
         then options(''format'' \<mapsto> OStr ''bestaudio/best'')
         else options(''format'' \<mapsto> OStr ''bestvideo[ext=mp4]+bestaudio[ext=m4a]/mp4/best''))"

text \<open>
  \<^verbatim>\<open>_build_yt_dlp_options\<close>; \<^verbatim>\<open>base_options.update(d)\<close> is \<open>base_options ++ d\<close>,
  so a key of the platform's dictionary replaces the base entry.
\<close>

definition build_yt_dlp_options :: "VideoRequest \<Rightarrow> string \<Rightarrow> string \<Rightarrow> options" where
  "build_yt_dlp_options request platform download_id =
     (let base_options =
        [''outtmpl'' \<mapsto> OStr (''downloads/'' @ download_id @ ''.%(ext)s''),
         ''format'' \<mapsto> OStr (get_format_string request platform),
         ''writeinfojson'' \<mapsto> OBool True,
         ''writethumbnail'' \<mapsto> OBool False,
         ''ignoreerrors'' \<mapsto> OBool False,
         ''no_warnings'' \<mapsto> OBool False,
         ''extractflat'' \<mapsto> OBool False,
         ''socket_timeout'' \<mapsto> OInt 30,
         ''retries'' \<mapsto> OInt 3]
      in if platform = ''tiktok'' then base_options ++ get_tiktok_options request
         else if platform = ''instagram'' then base_options ++ get_instagram_options
         else if platform = ''youtube'' then base_options ++ get_youtube_options request
         else base_options)"

text \<open>
  The options that reach the extractor for a request: \<^verbatim>\<open>download_video\<close> detects the
  platform from the url and builds the options, and \<^verbatim>\<open>_execute_download\<close> adds the
  progress hook before it constructs \<^verbatim>\<open>yt_dlp.YoutubeDL(options)\<close>.
\<close>

definition extractor_options :: "VideoRequest \<Rightarrow> string \<Rightarrow> options" where
  "extractor_options request download_id =
     (build_yt_dlp_options request (detect_platform (url request)) download_id)
       (''progress_hooks'' \<mapsto> OHooks [download_id])"

subsection \<open>The extractor and the extraction of one job\<close>

text \<open>
  An entry of the dictionary that \<^verbatim>\<open>extract_info\<close> returns: the key is absent, or it
  is present with the value \<^verbatim>\<open>None\<close>, or it is present with a value.
\<close>

datatype 'a field = Missing | PyNone | Val 'a

record info =
  filesize :: "int field"
  title :: "string field"
  uploader :: "string field"
  duration :: "int field"
  view_count :: "int field"
  upload_date :: "string field"

text \<open>\<^verbatim>\<open>info.get(k, default)\<close>: the default stands in for an absent key only.\<close>

definition info_get :: "'a field \<Rightarrow> 'a \<Rightarrow> 'a field" where
  "info_get v dflt = (case v of Missing \<Rightarrow> Val dflt | _ \<Rightarrow> v)"

record metadata =
  md_title :: "string field"
  md_uploader :: "string field"
  md_duration :: "int field"
  md_view_count :: "int field"
  md_upload_date :: "string field"
  md_platform :: string

record download_result =
  file_path :: string
  file_size :: int
  filename :: string
  metadata :: metadata

text \<open>
  Exceptions are values. What \<^verbatim>\<open>download_sync\<close> can raise is the \<^verbatim>\<open>ValueError\<close>
  of the size check, kept with the file size its message prints, or whatever the extractor
  raises, kept with its message. An \<^verbatim>\<open>HTTPException\<close> has a status code and a detail;
  the detail \<^verbatim>\<open>f"Download failed: {str(e)}"\<close> is kept as the exception it prints.
  Where the code stores \<^verbatim>\<open>str(e)\<close> of an \<^verbatim>\<open>HTTPException\<close>, the model stores the
  exception.
\<close>

datatype cause = Size_exceeds int | Extractor_raised string

datatype detail = Text string | Download_failed cause

datatype http_exception = HTTPException nat detail

definition max_file_size :: int where
  "max_file_size = 500 * 1024 * 1024"

definition timeout_duration :: nat where
  "timeout_duration = 600"

text \<open>
  What the extractor and the file system do for one job: the outcome of
  \<^verbatim>\<open>extract_info(url, download=False)\<close> and of \<^verbatim>\<open>extract_info(url, download=True)\<close>
  (\<open>Inl\<close> is the message of the exception raised), the seconds \<^verbatim>\<open>download_sync\<close>
  takes in its worker thread, and the size of \<^verbatim>\<open>downloads/{download_id}.{ext}\<close> for
  every extension for which that file exists when the extraction has returned.
\<close>

record extraction =
  inspect :: "string + info"
  fetch :: "string + info"
  elapsed :: nat
  files :: "string \<rightharpoonup> int"

datatype call = Extract_info bool

text \<open>
  \<^verbatim>\<open>download_sync\<close>, with the calls it makes on the extractor (the flag is the
  \<^verbatim>\<open>download\<close> argument) next to what it returns or raises. The size check
  \<^verbatim>\<open>'filesize' in info and info['filesize'] and info['filesize'] > self.max_file_size\<close>
  raises only for a present value that is truthy (not 0) and above the maximum.
\<close>

definition download_sync :: "extraction \<Rightarrow> call list \<times> (cause + info)" where
  "download_sync env =
     (case inspect env of
        Inl m \<Rightarrow> ([Extract_info False], Inl (Extractor_raised m))
      | Inr i \<Rightarrow>
          (let proceed =
             ([Extract_info False, Extract_info True],
              case fetch env of Inl m \<Rightarrow> Inl (Extractor_raised m) | Inr i' \<Rightarrow> Inr i')
           in case filesize i of
                Val n \<Rightarrow>
                  if n \<noteq> 0 \<and> n > max_file_size
                  then ([Extract_info False], Inl (Size_exceeds n))
                  else proceed
              | _ \<Rightarrow> proceed))"

text \<open>The two loops over extensions: the first existing file, with its size.\<close>

fun first_existing :: "(string \<rightharpoonup> int) \<Rightarrow> string list \<Rightarrow> (string \<times> int) option" where
  "first_existing fs [] = None"
| "first_existing fs (ext # exts) =
     (case fs ext of Some n \<Rightarrow> Some (ext, n) | None \<Rightarrow> first_existing fs exts)"

definition find_downloaded :: "(string \<rightharpoonup> int) \<Rightarrow> (string \<times> int) option" where
  "find_downloaded fs =
     (case first_existing fs [''mp4'', ''webm'', ''mkv'', ''avi'', ''mov'', ''flv''] of
        Some f \<Rightarrow> Some f
      | None \<Rightarrow> first_existing fs [''mp3'', ''m4a'', ''wav'', ''ogg'', ''aac''])"

text \<open>The exception raised for \<^verbatim>\<open>asyncio.TimeoutError\<close>.\<close>

definition timeout_error :: http_exception where
  "timeout_error =
     HTTPException 408 (Text ''Download timeout - file is too large or connection is slow'')"

text \<open>
  \<^verbatim>\<open>_execute_download\<close>. \<^verbatim>\<open>asyncio.wait_for\<close> raises \<^verbatim>\<open>TimeoutError\<close> when the
  worker has not finished within \<^verbatim>\<open>timeout_duration\<close> seconds; it cannot stop the
  worker thread, whose return value or exception is then dropped.
\<close>

definition execute_download ::
  "string \<Rightarrow> options \<Rightarrow> string \<Rightarrow> extraction \<Rightarrow> http_exception + download_result" where
  "execute_download u opts download_id env =
     (if elapsed env > timeout_duration
      then Inl timeout_error
      else case snd (download_sync env) of
        Inl e \<Rightarrow> Inl (HTTPException 500 (Download_failed e))
      | Inr i \<Rightarrow>
          (case find_downloaded (files env) of
             None \<Rightarrow> Inl (HTTPException 500 (Text ''No video file was downloaded''))
           | Some (ext, n) \<Rightarrow>
               Inr \<lparr>file_path = ''downloads/'' @ download_id @ ''.'' @ ext,
                    file_size = n,
                    filename = download_id @ ''.'' @ ext,
                    metadata =
                      \<lparr>md_title = info_get (title i) ''Unknown'',
                       md_uploader = info_get (uploader i) ''Unknown'',
                       md_duration = info_get (duration i) 0,
                       md_view_count = info_get (view_count i) 0,
                       md_upload_date = info_get (upload_date i) ''Unknown'',
                       md_platform = detect_platform u\<rparr>\<rparr>))"

subsection \<open>Job records and the progress hook\<close>

text \<open>
  The status strings \<^verbatim>\<open>"queued"\<close>, \<^verbatim>\<open>"processing"\<close>, \<^verbatim>\<open>"completed"\<close> and
  \<^verbatim>\<open>"failed"\<close>.
\<close>

datatype status = Queued | Processing | Completed | Failed

text \<open>
  The message of a record is a literal, or \<^verbatim>\<open>f"Download failed: {str(e)}"\<close>, kept as
  the exception it prints.
\<close>

datatype message = Msg string | Msg_failed http_exception

text \<open>
  A value of \<^verbatim>\<open>active_downloads\<close>: a dictionary with the keys below. The keys that
  the progress hook writes are entries as above (absent, \<^verbatim>\<open>None\<close> or a value); for
  the keys that only \<^verbatim>\<open>download_video\<close> writes, \<open>None\<close> is an absent key. Clock
  readings of \<^verbatim>\<open>time.time()\<close> are integers here.
\<close>

record job =
  status :: status
  start_time :: int
  job_url :: string
  message :: message
  progress :: "string field"
  speed :: "string field"
  eta :: "string field"
  downloaded_bytes :: "int field"
  total_bytes :: "int field"
  end_time :: "int option"
  job_duration :: "int option"
  result :: "download_result option"
  error :: "http_exception option"

text \<open>
  The dictionary \<^verbatim>\<open>d\<close> that the extractor passes to a progress hook: its status and
  the entries that the hook reads with \<^verbatim>\<open>d.get(k, default)\<close>.
\<close>

record progress_event =
  p_status :: string
  p_percent_str :: "string field"
  p_speed_str :: "string field"
  p_eta_str :: "string field"
  p_downloaded_bytes :: "int field"
  p_total_bytes :: "int field"

text \<open>
  The body of \<^verbatim>\<open>progress_hook\<close> on the record of its download id: both branches
  update the record without reading its status. As with \<^verbatim>\<open>info.get\<close>, the default
  of \<^verbatim>\<open>d.get\<close> stands in for an absent key only, and a key that is present with
  \<^verbatim>\<open>None\<close> is stored as \<^verbatim>\<open>None\<close>.
\<close>

definition progress_hook :: "progress_event \<Rightarrow> job \<Rightarrow> job" where
  "progress_hook d r =
     (if p_status d = ''downloading''
      then r\<lparr>progress := info_get (p_percent_str d) ''N/A'',
             speed := info_get (p_speed_str d) ''N/A'',
             eta := info_get (p_eta_str d) ''N/A'',
             downloaded_bytes := info_get (p_downloaded_bytes d) 0,
             total_bytes := info_get (p_total_bytes d) 0\<rparr>
      else if p_status d = ''finished''
      then r\<lparr>status := Processing, message := Msg ''Processing downloaded file...''\<rparr>
      else r)"

text \<open>The record that \<^verbatim>\<open>download_video\<close> assigns once it holds the semaphore.\<close>

definition start_record :: "VideoRequest \<Rightarrow> int \<Rightarrow> job" where
  "start_record request now =
     \<lparr>status = Processing, start_time = now, job_url = url request,
      message = Msg ''Starting download...'',
      progress = Missing, speed = Missing, eta = Missing, downloaded_bytes = Missing,
      total_bytes = Missing, end_time = None, job_duration = None, result = None,
      error = None\<rparr>"

text \<open>
  The final update of \<^verbatim>\<open>download_video\<close>: the \<^verbatim>\<open>try\<close> branch after a result, the
  \<^verbatim>\<open>except\<close> branch after an exception.
\<close>

definition finish_record :: "job \<Rightarrow> http_exception + download_result \<Rightarrow> int \<Rightarrow> job" where
  "finish_record r outcome now =
     (case outcome of
        Inr res \<Rightarrow>
          r\<lparr>status := Completed, end_time := Some now,
            job_duration := Some (now - start_time r), result := Some res,
            message := Msg ''Download completed successfully!''\<rparr>
      | Inl e \<Rightarrow>
          r\<lparr>status := Failed, error := Some e, end_time := Some now,
            message := Msg_failed e\<rparr>)"

subsection \<open>The downloader, its tasks and the endpoints\<close>

text \<open>
  The coroutine \<^verbatim>\<open>downloader.download_video(request, download_id)\<close> that the endpoint
  hands to \<^verbatim>\<open>background_tasks\<close>: waiting at \<^verbatim>\<open>async with self.semaphore\<close>, inside
  it, or left.
\<close>

datatype task = Waiting VideoRequest | Running VideoRequest | Done

text \<open>
  A worker thread of the executor that runs \<^verbatim>\<open>download_sync\<close>: its task still awaits
  it inside \<^verbatim>\<open>asyncio.wait_for\<close>, or \<^verbatim>\<open>wait_for\<close> has timed out and the thread
  goes on with the extraction that is then known.
\<close>

datatype worker = Working | Abandoned extraction

text \<open>
  The state of the process: the dictionary \<^verbatim>\<open>active_downloads\<close> in insertion order,
  the value of the semaphore, the background tasks by download id, and the worker threads
  that have not ended, by download id.
\<close>

record state =
  active_downloads :: "(string \<times> job) list"
  semaphore :: nat
  tasks :: "(string \<times> task) list"
  threads :: "(string \<times> worker) list"

text \<open>\<^verbatim>\<open>VideoDownloader.__init__\<close>.\<close>

definition init :: state where
  "init = \<lparr>active_downloads = [], semaphore = 5, tasks = [], threads = []\<rparr>"

text \<open>
  An extraction reaches download mode when \<^verbatim>\<open>download_sync\<close> calls
  \<^verbatim>\<open>extract_info(url, download=True)\<close>; the extractor calls the progress hooks only
  from inside that call.
\<close>

definition downloads :: "extraction \<Rightarrow> bool" where
  "downloads env = (Extract_info True \<in> set (fst (download_sync env)))"

definition may_call_hook :: "worker \<Rightarrow> bool" where
  "may_call_hook w = (case w of Working \<Rightarrow> True | Abandoned env \<Rightarrow> downloads env)"

text \<open>
  What can happen next. \<open>Submit\<close> is \<^verbatim>\<open>POST /api/download\<close> with the uuid it draws;
  \<open>Admit\<close> is a waiting task that enters the semaphore, at a clock reading; \<open>Hook\<close>
  is a call of the progress hook from a worker thread; \<open>Finish\<close> is the return of
  \<^verbatim>\<open>asyncio.wait_for\<close> in a running task, with what the extractor did and the clock
  reading of the final update; \<open>Exit\<close> is the end of a worker thread that its task
  has abandoned.
\<close>

datatype event =
    Submit string VideoRequest
  | Admit string int
  | Hook string progress_event
  | Finish string extraction int
  | Exit string

text \<open>
  One event; \<open>None\<close> when the event cannot happen in the state. A uuid is not drawn
  twice. A task enters the semaphore only when its value is positive. Leaving
  \<^verbatim>\<open>async with\<close> releases the semaphore whatever the outcome. When \<^verbatim>\<open>wait_for\<close>
  returns in time the worker thread has ended; after a timeout the thread goes on with
  its extraction until it ends. The hook is called by a worker whose task still awaits
  it, where the extraction is not yet known, and by an abandoned worker only when its
  extraction reaches download mode.
\<close>

fun step :: "state \<Rightarrow> event \<Rightarrow> state option" where
  "step s (Submit i request) =
     (case map_of (tasks s) i of
        Some t \<Rightarrow> None
      | None \<Rightarrow> Some (s\<lparr>tasks := AList.update i (Waiting request) (tasks s)\<rparr>))"
| "step s (Admit i now) =
     (case map_of (tasks s) i of
        Some (Waiting request) \<Rightarrow>
          if semaphore s > 0
          then Some (s\<lparr>semaphore := semaphore s - 1,
                       active_downloads :=
                         AList.update i (start_record request now) (active_downloads s),
                       tasks := AList.update i (Running request) (tasks s),
                       threads := AList.update i Working (threads s)\<rparr>)
          else None
      | _ \<Rightarrow> None)"
| "step s (Hook i d) =
     (case map_of (threads s) i of
        Some w \<Rightarrow>
          if may_call_hook w
          then case map_of (active_downloads s) i of
                 Some r \<Rightarrow>
                   Some (s\<lparr>active_downloads :=
                              AList.update i (progress_hook d r) (active_downloads s)\<rparr>)
               | None \<Rightarrow> None
          else None
      | None \<Rightarrow> None)"
| "step s (Finish i env now) =
     (case map_of (tasks s) i of
        Some (Running request) \<Rightarrow>
          (case map_of (active_downloads s) i of
             Some r \<Rightarrow>
               Some (s\<lparr>active_downloads :=
                          AList.update i
                            (finish_record r
                               (execute_download (url request)
                                  (extractor_options request i) i env) now)
                            (active_downloads s),
                       semaphore := semaphore s + 1,
                       tasks := AList.update i Done (tasks s),
                       threads := (if elapsed env > timeout_duration
                                   then AList.update i (Abandoned env) (threads s)
                                   else AList.delete i (threads s))\<rparr>)
           | None \<Rightarrow> None)
      | _ \<Rightarrow> None)"
| "step s (Exit i) =
     (case map_of (threads s) i of
        Some (Abandoned env) \<Rightarrow> Some (s\<lparr>threads := AList.delete i (threads s)\<rparr>)
      | _ \<Rightarrow> None)"

fun run :: "state \<Rightarrow> event list \<Rightarrow> state option" where
  "run s [] = Some s"
| "run s (e # es) = (case step s e of None \<Rightarrow> None | Some s' \<Rightarrow> run s' es)"

text \<open>\<^verbatim>\<open>download_info.get(k)\<close>: \<^verbatim>\<open>None\<close> for an absent key.\<close>

definition field_value :: "'a field \<Rightarrow> 'a option" where
  "field_value v = (case v of Val x \<Rightarrow> Some x | _ \<Rightarrow> None)"

text \<open>
  The response model and the endpoints. \<^verbatim>\<open>POST /api/download\<close> answers with the
  response below and schedules the task (the event \<open>Submit\<close>); it does not touch
  \<^verbatim>\<open>active_downloads\<close>. In the status endpoint a completed record without the key
  \<^verbatim>\<open>"result"\<close> would raise \<^verbatim>\<open>KeyError\<close>, which the framework answers with
  status 500.
\<close>

record DownloadResponse =
  r_download_id :: string
  r_status :: status
  r_message :: message
  r_file_url :: "string option"
  r_file_size :: "int option"
  r_duration :: "int option"
  r_metadata :: "metadata option"
  r_progress :: "string option"
  r_speed :: "string option"
  r_eta :: "string option"

definition download_video_endpoint :: "string \<Rightarrow> DownloadResponse" where
  "download_video_endpoint i =
     \<lparr>r_download_id = i, r_status = Queued, r_message = Msg ''Download started successfully'',
      r_file_url = None, r_file_size = None, r_duration = None, r_metadata = None,
      r_progress = None, r_speed = None, r_eta = None\<rparr>"

definition get_download_status :: "state \<Rightarrow> string \<Rightarrow> http_exception + DownloadResponse" where
  "get_download_status s i =
     (case map_of (active_downloads s) i of
        None \<Rightarrow> Inl (HTTPException 404 (Text ''Download not found''))
      | Some download_info \<Rightarrow>
          (let response_data =
             \<lparr>r_download_id = i, r_status = status download_info,
              r_message = message download_info,
              r_file_url = None, r_file_size = None, r_duration = None, r_metadata = None,
              r_progress = field_value (progress download_info),
              r_speed = field_value (speed download_info),
              r_eta = field_value (eta download_info)\<rparr>
           in if status download_info = Completed
              then case result download_info of
                     Some res \<Rightarrow>
                       Inr (response_data
                             \<lparr>r_file_url := Some (''/api/download/'' @ i @ ''/file''),
                              r_file_size := Some (file_size res),
                              r_duration := job_duration download_info,
                              r_metadata := Some (metadata res)\<rparr>)
                   | None \<Rightarrow> Inl (HTTPException 500 (Text ''Internal Server Error''))
              else Inr response_data))"

text \<open>The field \<^verbatim>\<open>"active_downloads"\<close> of the answer of \<^verbatim>\<open>GET /api/health\<close>.\<close>

definition health_check :: "state \<Rightarrow> nat" where
  "health_check s = length (active_downloads s)"

text \<open>Counting the entries of a table whose value satisfies a predicate.\<close>

definition count_where :: "('v \<Rightarrow> bool) \<Rightarrow> ('k \<times> 'v) list \<Rightarrow> nat" where
  "count_where P al = length (filter (\<lambda>kv. P (snd kv)) al)"

definition is_running :: "task \<Rightarrow> bool" where
  "is_running t = (case t of Running request \<Rightarrow> True | _ \<Rightarrow> False)"

definition is_waiting :: "task \<Rightarrow> bool" where
  "is_waiting t = (case t of Waiting request \<Rightarrow> True | _ \<Rightarrow> False)"

definition status_of :: "state \<Rightarrow> string \<Rightarrow> status option" where
  "status_of s i = map_option status (map_of (active_downloads s) i)"

definition processing_count :: "state \<Rightarrow> nat" where
  "processing_count s = count_where (\<lambda>r. status r = Processing) (active_downloads s)"

definition job_after :: "event list \<Rightarrow> string \<Rightarrow> job option" where
  "job_after es i =
     (case run init es of None \<Rightarrow> None | Some s \<Rightarrow> map_of (active_downloads s) i)"

definition task_after :: "event list \<Rightarrow> string \<Rightarrow> task option" where
  "task_after es i =
     (case run init es of None \<Rightarrow> None | Some s \<Rightarrow> map_of (tasks s) i)"

definition worker_count :: "state \<Rightarrow> nat" where
  "worker_count s = length (threads s)"

definition recorded_size :: "job \<Rightarrow> int option" where
  "recorded_size r = map_option file_size (result r)"

subsection \<open>The invariant of the reachable states\<close>

text \<open>
  What holds of one download id in every reachable state: no record and no worker before
  the task is inside the semaphore; while it is, a worker that the task awaits and a
  record in status processing with neither result nor error; afterwards a completed
  record with a result and no worker left, or a failed record with an error, or the
  record of a timed-out job that its abandoned worker has set back to processing. A
  worker that is left when its task is over belongs to a timed-out job.
\<close>

definition job_ok :: "state \<Rightarrow> string \<Rightarrow> bool" where
  "job_ok s i =
     (case map_of (tasks s) i of
        None \<Rightarrow> map_of (active_downloads s) i = None \<and> map_of (threads s) i = None
      | Some (Waiting request) \<Rightarrow>
          map_of (active_downloads s) i = None \<and> map_of (threads s) i = None
      | Some (Running request) \<Rightarrow>
          map_of (threads s) i = Some Working \<and>
          (case map_of (active_downloads s) i of
             None \<Rightarrow> False
           | Some r \<Rightarrow> status r = Processing \<and> result r = None \<and> error r = None)
      | Some Done \<Rightarrow>
          map_of (threads s) i \<noteq> Some Working \<and>
          (case map_of (active_downloads s) i of
             None \<Rightarrow> False
           | Some r \<Rightarrow>
               (map_of (threads s) i = None \<or> error r = Some timeout_error) \<and>
               ((status r = Completed \<and> result r \<noteq> None \<and> error r = None \<and>
                 map_of (threads s) i = None) \<or>
                (status r = Failed \<and> result r = None \<and> error r \<noteq> None) \<or>
                (status r = Processing \<and> result r = None \<and>
                 error r = Some timeout_error))))"

definition state_inv :: "state \<Rightarrow> bool" where
  "state_inv s =
     (distinct (map fst (tasks s)) \<and>
      distinct (map fst (active_downloads s)) \<and>
      semaphore s + count_where is_running (tasks s) = 5 \<and>
      length (active_downloads s) = count_where (\<lambda>t. \<not> is_waiting t) (tasks s) \<and>
      (\<forall>i. job_ok s i))"

subsection \<open>Concrete requests, extractions and runs\<close>

definition yt_request :: VideoRequest where
  "yt_request =
     \<lparr>url = ''https://youtube.com/watch?v=X'', format = ''mp4'', quality = ''720p'',
      audio_only = False, remove_watermark = True\<rparr>"

definition insta_request :: VideoRequest where
  "insta_request =
     \<lparr>url = ''https://www.instagram.com/reel/abc'', format = ''mp4'', quality = ''480p'',
      audio_only = False, remove_watermark = True\<rparr>"

definition audio_request :: VideoRequest where
  "audio_request =
     \<lparr>url = ''https://www.tiktok.com/@u/video/1'', format = ''mp3'', quality = ''1080p'',
      audio_only = True, remove_watermark = True\<rparr>"

definition small_info :: info where
  "small_info =
     \<lparr>filesize = Missing, title = Val ''clip'', uploader = Missing, duration = Val 12,
      view_count = PyNone, upload_date = Missing\<rparr>"


text \<open>
  An extraction whose preflight reports no size and whose file has 600 MB; one whose
  preflight reports 600 MB and that takes 700 seconds; one whose preflight reports 600 MB
  within 10 seconds.
\<close>

definition unsized_run :: extraction where
  "unsized_run =
     \<lparr>inspect = Inr small_info, fetch = Inr small_info, elapsed = 10,
      files = [''mp4'' \<mapsto> 629145600]\<rparr>"



text \<open>
  An extraction whose preflight reports no size and whose download takes 700 seconds,
  and two calls of the progress hook from that download.
\<close>

definition slow_download :: extraction where
  "slow_download =
     \<lparr>inspect = Inr small_info, fetch = Inr small_info, elapsed = 700,
      files = [''mp4'' \<mapsto> 1048576]\<rparr>"

definition downloading_event :: progress_event where
  "downloading_event =
     \<lparr>p_status = ''downloading'', p_percent_str = Val '' 99.0%'', p_speed_str = PyNone,
      p_eta_str = Missing, p_downloaded_bytes = Val 1038090, p_total_bytes = Val 1048576\<rparr>"

definition finished_event :: progress_event where
  "finished_event =
     \<lparr>p_status = ''finished'', p_percent_str = Missing, p_speed_str = Missing,
      p_eta_str = Missing, p_downloaded_bytes = Val 1048576, p_total_bytes = Val 1048576\<rparr>"

text \<open>
  One submitted job; one admitted job; one job whose preflight times out; one completed
  job; one job whose download is abandoned at the timeout.
\<close>

definition submitted :: "event list" where
  "submitted = [Submit ''a'' yt_request]"

definition admitted :: "event list" where
  "admitted = [Submit ''a'' yt_request, Admit ''a'' 0]"


definition completed :: "event list" where
  "completed = [Submit ''a'' yt_request, Admit ''a'' 0, Finish ''a'' unsized_run 10]"

definition abandoned :: "event list" where
  "abandoned = [Submit ''a'' yt_request, Admit ''a'' 0, Finish ''a'' slow_download 600]"

text \<open>
  Six submissions: five are admitted, the download of the first is abandoned at the
  timeout and its permit released, and the sixth is admitted while the worker thread of
  the first goes on and then reports that its download has finished.
\<close>

definition burst :: "event list" where
  "burst =
     [Submit ''a'' yt_request, Submit ''b'' yt_request, Submit ''c'' yt_request,
      Submit ''d'' yt_request, Submit ''e'' yt_request, Submit ''f'' yt_request,
      Admit ''a'' 0, Admit ''b'' 0, Admit ''c'' 0, Admit ''d'' 0, Admit ''e'' 0,
      Finish ''a'' slow_download 600, Admit ''f'' 601]"

text \<open>The state that the run \<open>admitted\<close> reaches.\<close>

definition admitted_state :: state where
  "admitted_state =
     \<lparr>active_downloads = [(''a'', start_record yt_request 0)], semaphore = 4,
      tasks = [(''a'', Running yt_request)], threads = [(''a'', Working)]\<rparr>"

section \<open>Tables, events and the invariant\<close>

lemma count_where_update_new:
  "map_of al k = None \<Longrightarrow>
   count_where P (AList.update k v al) = count_where P al + (if P v then 1 else 0)"
  by (induction al) (auto simp: count_where_def split: if_splits)

lemma count_where_update_old:
  "map_of al k = Some v0 \<Longrightarrow> distinct (map fst al) \<Longrightarrow>
   count_where P (AList.update k v al) + (if P v0 then 1 else 0) =
   count_where P al + (if P v then 1 else 0)"
proof (induction al)
  case Nil
  then show ?case by simp
next
  case (Cons a al)
  show ?case
  proof (cases "fst a = k")
    case True
    with Cons.prems have "snd a = v0" by (cases a) simp
    with True show ?thesis by (cases a) (simp add: count_where_def)
  next
    case False
    with Cons show ?thesis by (cases a) (simp add: count_where_def)
  qed
qed

lemma length_update_new: "map_of al k = None \<Longrightarrow> length (AList.update k v al) = Suc (length al)"
  by (induction al) (auto split: if_splits)

lemma length_update_old: "map_of al k = Some v0 \<Longrightarrow> length (AList.update k v al) = length al"
  by (induction al) (auto split: if_splits)

lemma inv_init: "state_inv init"
  by (simp add: state_inv_def init_def job_ok_def count_where_def)

lemma exec_timeout: "elapsed env > timeout_duration \<Longrightarrow> execute_download u opts i env = Inl timeout_error"
  by (simp add: execute_download_def)

lemma progress_hook_keeps:
  "result (progress_hook d r) = result r" "error (progress_hook d r) = error r"
  "end_time (progress_hook d r) = end_time r" "job_duration (progress_hook d r) = job_duration r"
  "start_time (progress_hook d r) = start_time r" "job_url (progress_hook d r) = job_url r"
  by (simp_all add: progress_hook_def)

lemma progress_hook_status:
  "status (progress_hook d r) = status r \<or> status (progress_hook d r) = Processing"
  by (simp add: progress_hook_def)

lemma inv_submit:
  assumes "state_inv s" "step s (Submit i request) = Some s'"
  shows "state_inv s'"
proof -
  from assms(2) have n: "map_of (tasks s) i = None"
    and s': "s' = s\<lparr>tasks := AList.update i (Waiting request) (tasks s)\<rparr>"
    by (auto split: option.splits)
  from assms(1) have ok: "\<And>j. job_ok s j" by (simp add: state_inv_def)
  have "job_ok s' j" for j
    using ok[of j] ok[of i] n by (auto simp: s' job_ok_def update_conv' split: option.splits task.splits)
  with assms(1) n show ?thesis
    by (simp add: state_inv_def s' distinct_update count_where_update_new is_running_def is_waiting_def)
qed

lemma inv_admit:
  assumes "state_inv s" "step s (Admit i now) = Some s'"
  shows "state_inv s'"
proof -
  from assms(2) obtain request where w: "map_of (tasks s) i = Some (Waiting request)"
    and pos: "semaphore s > 0"
    and s': "s' = s\<lparr>semaphore := semaphore s - 1,
                       active_downloads :=
                         AList.update i (start_record request now) (active_downloads s),
                       tasks := AList.update i (Running request) (tasks s),
                       threads := AList.update i Working (threads s)\<rparr>"
    by (auto split: option.splits task.splits if_splits)
  from assms(1) have ok: "\<And>j. job_ok s j" by (simp add: state_inv_def)
  from ok[of i] w have n: "map_of (active_downloads s) i = None" by (simp add: job_ok_def)
  have a: "job_ok s' j" for j
    using ok[of j] w n by (auto simp: s' job_ok_def update_conv' start_record_def split: option.splits task.splits)
  from assms(1) have d: "distinct (map fst (tasks s))" by (simp add: state_inv_def)
  have c1: "count_where is_running (AList.update i (Running request) (tasks s)) = count_where is_running (tasks s) + 1"
    using count_where_update_old[OF w d, of is_running "Running request"] by (simp add: is_running_def)
  have c2: "count_where (\<lambda>t. \<not> is_waiting t) (AList.update i (Running request) (tasks s)) = count_where (\<lambda>t. \<not> is_waiting t) (tasks s) + 1"
    using count_where_update_old[OF w d, of "\<lambda>t. \<not> is_waiting t" "Running request"] by (simp add: is_waiting_def)
  from assms(1) pos a show ?thesis
    by (simp add: state_inv_def s' distinct_update c1 c2 length_update_new[OF n])
qed

lemma inv_hook:
  assumes "state_inv s" "step s (Hook i d) = Some s'"
  shows "state_inv s'"
proof -
  from assms(2) obtain r where t: "map_of (threads s) i \<noteq> None"
    and r: "map_of (active_downloads s) i = Some r"
    and s': "s' = s\<lparr>active_downloads := AList.update i (progress_hook d r) (active_downloads s)\<rparr>"
    by (auto split: option.splits if_splits)
  from assms(1) have ok: "\<And>j. job_ok s j" by (simp add: state_inv_def)
  have a: "job_ok s' j" for j
    using ok[of j] t r progress_hook_status[of d r]
    by (auto simp: s' job_ok_def update_conv' progress_hook_keeps split: option.splits task.splits if_splits)
  from assms(1) a show ?thesis
    by (simp add: state_inv_def s' distinct_update length_update_old[OF r])
qed

lemma finish_record_fields:
  "status (finish_record r (Inl e) now) = Failed"
  "error (finish_record r (Inl e) now) = Some e"
  "result (finish_record r (Inl e) now) = result r"
  "status (finish_record r (Inr res) now) = Completed"
  "error (finish_record r (Inr res) now) = error r"
  "result (finish_record r (Inr res) now) = Some res"
  by (simp_all add: finish_record_def)

lemma inv_finish:
  assumes "state_inv s" "step s (Finish i env now) = Some s'"
  shows "state_inv s'"
proof -
  from assms(2) obtain request r where w: "map_of (tasks s) i = Some (Running request)"
    and r: "map_of (active_downloads s) i = Some r"
    and s': "s' = s\<lparr>active_downloads :=
                          AList.update i
                            (finish_record r
                               (execute_download (url request)
                                  (extractor_options request i) i env) now)
                            (active_downloads s),
                       semaphore := semaphore s + 1,
                       tasks := AList.update i Done (tasks s),
                       threads := (if elapsed env > timeout_duration
                                   then AList.update i (Abandoned env) (threads s)
                                   else AList.delete i (threads s))\<rparr>"
    by (auto split: option.splits task.splits if_splits)
  from assms(1) have ok: "\<And>j. job_ok s j" by (simp add: state_inv_def)
  have a: "job_ok s' j" for j
  proof (cases "j = i")
    case False
    with ok[of j] show ?thesis
      by (auto simp: s' job_ok_def update_conv' delete_conv'
          split: option.splits task.splits if_splits)
  next
    case True
    from ok[of i] w r have rr: "status r = Processing" "result r = None" "error r = None"
      by (simp_all add: job_ok_def)
    show ?thesis
    proof (cases "elapsed env > timeout_duration")
      case t: True
      then show ?thesis using True rr
        by (simp add: s' job_ok_def update_conv' exec_timeout finish_record_fields)
    next
      case f: False
      then show ?thesis using True rr
        by (cases "execute_download (url request) (extractor_options request i) i env")
           (simp_all add: s' job_ok_def update_conv' delete_conv' finish_record_fields)
    qed
  qed
  from assms(1) have d: "distinct (map fst (tasks s))" by (simp add: state_inv_def)
  have c1: "count_where is_running (AList.update i Done (tasks s)) + 1 = count_where is_running (tasks s)"
    using count_where_update_old[OF w d, of is_running Done] by (simp add: is_running_def)
  have c2: "count_where (\<lambda>t. \<not> is_waiting t) (AList.update i Done (tasks s)) = count_where (\<lambda>t. \<not> is_waiting t) (tasks s)"
    using count_where_update_old[OF w d, of "\<lambda>t. \<not> is_waiting t" Done] by (simp add: is_waiting_def)
  from assms(1) a c1 show ?thesis
    by (simp add: state_inv_def s' distinct_update c2 length_update_old[OF r])
qed

lemma inv_exit:
  assumes "state_inv s" "step s (Exit i) = Some s'"
  shows "state_inv s'"
proof -
  from assms(2) obtain env where t: "map_of (threads s) i = Some (Abandoned env)"
    and s': "s' = s\<lparr>threads := AList.delete i (threads s)\<rparr>"
    by (auto split: option.splits worker.splits)
  from assms(1) have ok: "\<And>j. job_ok s j" by (simp add: state_inv_def)
  have a: "job_ok s' j" for j
    using ok[of j] t
    by (cases "j = i")
       (auto simp: s' job_ok_def delete_conv' split: option.splits task.splits)
  from assms(1) a show ?thesis by (simp add: state_inv_def s')
qed

lemma inv_step: "state_inv s \<Longrightarrow> step s e = Some s' \<Longrightarrow> state_inv s'"
  by (cases e) (auto intro: inv_submit inv_admit inv_hook inv_finish inv_exit)

lemma inv_run_from: "state_inv s \<Longrightarrow> run s es = Some s' \<Longrightarrow> state_inv s'"
  by (induction es arbitrary: s) (auto split: option.splits dest: inv_step)

lemma inv_run: "run init es = Some s \<Longrightarrow> state_inv s"
  using inv_init inv_run_from by blast

lemma step_SubmitE:
  assumes "step s (Submit i request) = Some s'"
  shows "map_of (tasks s) i = None \<and> s' = s\<lparr>tasks := AList.update i (Waiting request) (tasks s)\<rparr>"
  using assms by (auto split: option.splits)

lemma step_AdmitE:
  assumes "step s (Admit i now) = Some s'"
  shows "\<exists>request. map_of (tasks s) i = Some (Waiting request) \<and> semaphore s > 0 \<and>
     s' = s\<lparr>semaphore := semaphore s - 1,
            active_downloads := AList.update i (start_record request now) (active_downloads s),
            tasks := AList.update i (Running request) (tasks s),
            threads := AList.update i Working (threads s)\<rparr>"
  using assms by (auto split: option.splits task.splits if_splits)

lemma step_HookE:
  assumes "step s (Hook i d) = Some s'"
  shows "\<exists>r w. map_of (threads s) i = Some w \<and> may_call_hook w \<and>
     map_of (active_downloads s) i = Some r \<and>
     s' = s\<lparr>active_downloads := AList.update i (progress_hook d r) (active_downloads s)\<rparr>"
  using assms by (auto split: option.splits if_splits)

lemma step_ExitE:
  assumes "step s (Exit i) = Some s'"
  shows "\<exists>env. map_of (threads s) i = Some (Abandoned env) \<and>
     s' = s\<lparr>threads := AList.delete i (threads s)\<rparr>"
  using assms by (auto split: option.splits worker.splits)

lemma step_FinishE:
  assumes "step s (Finish i env now) = Some s'"
  shows "\<exists>request r. map_of (tasks s) i = Some (Running request) \<and>
     map_of (active_downloads s) i = Some r \<and>
     s' = s\<lparr>active_downloads :=
              AList.update i
                (finish_record r
                   (execute_download (url request) (extractor_options request i) i env) now)
                (active_downloads s),
            semaphore := semaphore s + 1,
            tasks := AList.update i Done (tasks s),
            threads := (if elapsed env > timeout_duration
                        then AList.update i (Abandoned env) (threads s)
                        else AList.delete i (threads s))\<rparr>"
  using assms by (auto split: option.splits task.splits if_splits)


text \<open>The change of the status of one download id in one event.\<close>

lemma step_status:
  assumes "state_inv s" "step s e = Some s'"
  shows "status_of s' i = status_of s i
       \<or> (status_of s i = None \<and> status_of s' i = Some Processing \<and> (\<exists>now. e = Admit i now))
       \<or> (status_of s i = Some Processing \<and> (status_of s' i = Some Completed \<or> status_of s' i = Some Failed) \<and> (\<exists>env now. e = Finish i env now))
       \<or> (status_of s i = Some Failed \<and> status_of s' i = Some Processing \<and> (\<exists>d. e = Hook i d))"
proof -
  from assms(1) have ok: "job_ok s i" by (simp add: state_inv_def)
  show ?thesis
  proof (cases e)
    case (Submit j request)
    with assms(2) step_SubmitE[of s j request s'] show ?thesis by (auto simp: status_of_def)
  next
    case (Admit j now)
    with assms(2) step_AdmitE[of s j now s'] ok show ?thesis
      by (cases "j = i") (auto simp: status_of_def update_conv' job_ok_def start_record_def)
  next
    case (Hook j d)
    from Hook assms(2) step_HookE[of s j d s'] obtain r where
      r: "map_of (threads s) j \<noteq> None" "map_of (active_downloads s) j = Some r"
      "s' = s\<lparr>active_downloads := AList.update j (progress_hook d r) (active_downloads s)\<rparr>"
      by auto
    show ?thesis
    proof (cases "j = i")
      case False
      with r show ?thesis by (simp add: status_of_def update_conv')
    next
      case True
      with ok r progress_hook_status[of d r] Hook show ?thesis
        by (auto simp: status_of_def update_conv' job_ok_def split: option.splits task.splits if_splits)
    qed
  next
    case (Exit j)
    with assms(2) step_ExitE[of s j s'] show ?thesis by (auto simp: status_of_def)
  next
    case (Finish j env now)
    from Finish assms(2) step_FinishE[of s j env now s'] obtain request r where
      r: "map_of (tasks s) j = Some (Running request)" "map_of (active_downloads s) j = Some r"
      "active_downloads s' = AList.update j
                (finish_record r
                   (execute_download (url request) (extractor_options request j) j env) now)
                (active_downloads s)"
      by auto
    show ?thesis
    proof (cases "j = i")
      case False
      with r show ?thesis by (simp add: status_of_def update_conv')
    next
      case True
      with ok r Finish show ?thesis
        by (cases "execute_download (url request) (extractor_options request j) j env")
           (auto simp: status_of_def update_conv' job_ok_def finish_record_fields)
    qed
  qed
qed

lemma record_not_queued:
  assumes "job_ok s i" "map_of (active_downloads s) i = Some r"
  shows "status r = Processing \<or> status r = Completed \<or> status r = Failed"
  using assms by (auto simp: job_ok_def split: option.splits task.splits if_splits)

lemma length_by_status:
  assumes "\<forall>kv \<in> set al. status (snd kv) = Processing \<or> status (snd kv) = Completed \<or> status (snd kv) = Failed"
  shows "length al =
     count_where (\<lambda>r. status r = Processing) al + count_where (\<lambda>r. status r = Completed) al +
     count_where (\<lambda>r. status r = Failed) al"
  using assms by (induction al) (auto simp: count_where_def)

section \<open>Format selection\<close>

lemmas format_defs =
  extractor_options_def build_yt_dlp_options_def get_format_string_def
  get_tiktok_options_def get_instagram_options_def get_youtube_options_def
  map_add_def Let_def

lemma detect_yt_request: "detect_platform (url yt_request) = ''youtube''"
  by (simp add: yt_request_def detect_platform_def)

lemma detect_insta_request: "detect_platform (url insta_request) = ''instagram''"
  by (simp add: insta_request_def detect_platform_def)

text \<open>
  C4, as claimed: a request that is not audio-only, on a platform other than TikTok, gets
  the entry of the quality table. It fails for YouTube, whose options replace the format:
  the request for 720p gets the fixed mp4 expression.
\<close>

theorem youtube_format_ignores_quality:
  "\<not> audio_only yt_request \<and> detect_platform (url yt_request) \<noteq> ''tiktok'' \<and>
   extractor_options yt_request ''a'' ''format'' \<noteq>
     Some (OStr (dict_get quality_map (quality yt_request) ''bestvideo+bestaudio/best''))"
  by (simp add: detect_yt_request format_defs)
     (simp add: yt_request_def dict_get_def quality_map_def)

text \<open>
  C4, amended: for a request that is not audio-only, on a platform other than TikTok, the
  format passed to the extractor is the fixed expression
  \<^verbatim>\<open>bestvideo[ext=mp4]+bestaudio[ext=m4a]/mp4/best\<close> when the platform is YouTube,
  whatever the quality tier; on every other platform it is the entry of the quality table
  for best, worst, 720p, 480p and 1080p, and unconstrained best for any other tier.
\<close>

theorem format_from_quality_table:
  assumes "\<not> audio_only request" "detect_platform (url request) \<noteq> ''tiktok''"
  shows "extractor_options request download_id ''format'' =
     Some (OStr
       (if detect_platform (url request) = ''youtube''
        then ''bestvideo[ext=mp4]+bestaudio[ext=m4a]/mp4/best''
        else if quality request = ''best'' then ''bestvideo+bestaudio/best''
        else if quality request = ''worst'' then ''worst''
        else if quality request = ''720p''
          then ''bestvideo[height<=720]+bestaudio/best[height<=720]''
        else if quality request = ''480p''
          then ''bestvideo[height<=480]+bestaudio/best[height<=480]''
        else if quality request = ''1080p''
          then ''bestvideo[height<=1080]+bestaudio/best[height<=1080]''
        else ''bestvideo+bestaudio/best''))"
  using assms by (simp add: format_defs dict_get_def quality_map_def)

theorem format_from_quality_table_witness:
  "\<not> audio_only insta_request \<and> detect_platform (url insta_request) \<noteq> ''tiktok'' \<and>
   extractor_options insta_request ''a'' ''format'' =
     Some (OStr ''bestvideo[height<=480]+bestaudio/best[height<=480]'')"
proof -
  have h1: "\<not> audio_only insta_request" by (simp add: insta_request_def)
  have h2: "detect_platform (url insta_request) \<noteq> ''tiktok''"
    by (simp add: detect_insta_request)
  have q: "quality insta_request = ''480p''" by (simp add: insta_request_def)
  show ?thesis
    using h1 h2 format_from_quality_table [OF h1 h2, of "''a''"]
    by (simp add: detect_insta_request q)
qed

text \<open>
  C8: for a request with \<^verbatim>\<open>audio_only\<close> set, the format passed to the extractor is
  \<^verbatim>\<open>bestaudio/best\<close>, for every url (so every detected platform), every quality tier
  and either value of the watermark flag; the same holds of the options built for any
  platform string.
\<close>

theorem audio_only_format:
  assumes "audio_only request"
  shows "extractor_options request download_id ''format'' = Some (OStr ''bestaudio/best'') \<and>
         (\<forall>platform. build_yt_dlp_options request platform download_id ''format'' =
            Some (OStr ''bestaudio/best''))"
  using assms by (simp add: format_defs)

theorem audio_only_format_witness:
  "audio_only audio_request \<and>
   extractor_options audio_request ''a'' ''format'' = Some (OStr ''bestaudio/best'')"
proof -
  have h: "audio_only audio_request" by (simp add: audio_request_def)
  show ?thesis using h audio_only_format [OF h, of "''a''"] by simp
qed

section \<open>The life of a job record\<close>

lemmas run_defs =
  job_after_def init_def start_record_def finish_record_def execute_download_def
  download_sync_def timeout_duration_def max_file_size_def find_downloaded_def
  progress_hook_def info_get_def

text \<open>
  C1, as claimed: submit creates a record with status queued, which the status endpoint
  finds before the job is admitted. It fails: after a submission alone the table has no
  record of the job and the status endpoint answers 404.
\<close>

theorem submit_creates_no_record:
  "job_after submitted ''a'' = None \<and>
   map_option (\<lambda>s. get_download_status s ''a'') (run init submitted) =
     Some (Inl (HTTPException 404 (Text ''Download not found'')))"
  by (simp add: run_defs submitted_def get_download_status_def)

text \<open>
  C1, amended: submit answers at once with the new download id and the status queued in
  its response, and leaves the job table as it is, so that the status endpoint answers
  404 for a job that is submitted and not yet admitted. The record is created on
  admission, with status processing. No record ever has status queued, a record that
  appears has status processing, and an event that gives a record the status completed
  or failed finds it in status processing.
\<close>

theorem record_created_on_admission:
  assumes "run init es = Some s"
  shows "(\<forall>i request s'. step s (Submit i request) = Some s' \<longrightarrow>
            r_download_id (download_video_endpoint i) = i \<and>
            r_status (download_video_endpoint i) = Queued \<and>
            active_downloads s' = active_downloads s \<and>
            get_download_status s' i = Inl (HTTPException 404 (Text ''Download not found''))) \<and>
         (\<forall>i request. map_of (tasks s) i = Some (Waiting request) \<longrightarrow>
            get_download_status s i = Inl (HTTPException 404 (Text ''Download not found''))) \<and>
         (\<forall>i now s'. step s (Admit i now) = Some s' \<longrightarrow>
            status_of s i = None \<and> status_of s' i = Some Processing) \<and>
         (\<forall>e s' i. step s e = Some s' \<longrightarrow>
            status_of s' i \<noteq> Some Queued \<and>
            (status_of s i = None \<longrightarrow> status_of s' i = None \<or> status_of s' i = Some Processing) \<and>
            (status_of s' i = Some Completed \<or> status_of s' i = Some Failed \<longrightarrow>
               status_of s i = status_of s' i \<or> status_of s i = Some Processing))"
proof -
  have i: "state_inv s" using assms by (rule inv_run)
  have ok: "job_ok s j" for j using i by (simp add: state_inv_def)
  have a: "r_download_id (download_video_endpoint j) = j \<and>
            r_status (download_video_endpoint j) = Queued \<and>
            active_downloads s' = active_downloads s \<and>
            get_download_status s' j = Inl (HTTPException 404 (Text ''Download not found''))"
    if "step s (Submit j request) = Some s'" for j request s'
    using step_SubmitE[OF that] ok[of j]
    by (auto simp: download_video_endpoint_def get_download_status_def job_ok_def)
  have b: "get_download_status s j = Inl (HTTPException 404 (Text ''Download not found''))"
    if "map_of (tasks s) j = Some (Waiting request)" for j request
    using that ok[of j] by (simp add: get_download_status_def job_ok_def)
  have c: "status_of s j = None \<and> status_of s' j = Some Processing"
    if "step s (Admit j now) = Some s'" for j now s'
    using step_AdmitE[OF that] ok[of j]
    by (auto simp: status_of_def job_ok_def update_conv' start_record_def)
  have q: "status_of s' j \<noteq> Some Queued" if "step s e = Some s'" for e s' j
  proof -
    from i that have "state_inv s'" by (rule inv_step)
    then have "job_ok s' j" by (simp add: state_inv_def)
    then show ?thesis
      by (auto simp: status_of_def job_ok_def split: option.splits task.splits if_splits)
  qed
  have d: "(status_of s j = None \<longrightarrow> status_of s' j = None \<or> status_of s' j = Some Processing) \<and>
            (status_of s' j = Some Completed \<or> status_of s' j = Some Failed \<longrightarrow>
               status_of s j = status_of s' j \<or> status_of s j = Some Processing)"
    if "step s e = Some s'" for e s' j
    using step_status[OF i that, of j] by auto
  from a b c q d show ?thesis by blast
qed

theorem record_created_on_admission_witness:
  "run init submitted = Some (init\<lparr>tasks := [(''a'', Waiting yt_request)]\<rparr>) \<and>
   get_download_status (init\<lparr>tasks := [(''a'', Waiting yt_request)]\<rparr>) ''a'' =
     Inl (HTTPException 404 (Text ''Download not found'')) \<and>
   step (init\<lparr>tasks := [(''a'', Waiting yt_request)]\<rparr>) (Admit ''a'' 0) \<noteq> None \<and>
   status_of (the (step (init\<lparr>tasks := [(''a'', Waiting yt_request)]\<rparr>) (Admit ''a'' 0))) ''a'' =
     Some Processing"
proof -
  let ?s = "init\<lparr>tasks := [(''a'', Waiting yt_request)]\<rparr>"
  have h: "run init submitted = Some ?s" by (simp add: submitted_def init_def)
  have w: "map_of (tasks ?s) ''a'' = Some (Waiting yt_request)" by simp
  have a: "step ?s (Admit ''a'' 0) = Some (the (step ?s (Admit ''a'' 0)))"
    by (simp add: init_def)
  from record_created_on_admission [OF h] w a
  have "get_download_status ?s ''a'' = Inl (HTTPException 404 (Text ''Download not found''))"
    and "status_of (the (step ?s (Admit ''a'' 0))) ''a'' = Some Processing"
    by blast+
  with h a show ?thesis by (simp add: init_def)
qed

section \<open>A download abandoned at the timeout\<close>

text \<open>
  \<^verbatim>\<open>download_video\<close> writes the status failed as its last update when
  \<^verbatim>\<open>asyncio.wait_for\<close> times out, and leaves the semaphore. The worker thread is not
  stopped, and \<^verbatim>\<open>progress_hook\<close> does not read the status of the record it updates.
  The three theorems of this section follow one download of 700 seconds through that.
\<close>

lemma slow_download_downloads: "downloads slow_download"
  by (simp add: downloads_def download_sync_def slow_download_def small_info_def)

text \<open>
  C2: once a record has reached the status completed or failed, no later event changes
  its status or its terminal fields, and a progress update is applied only after a check
  of the status. The code does otherwise: the job has failed with the timeout error, the
  abandoned worker then reports progress, which is written into the failed record, and
  reports that the download has finished, which sets the status back to processing.
\<close>

theorem late_hook_overwrites_failed:
  "timeout_duration < elapsed slow_download \<and> downloads slow_download \<and>
   map_option status (job_after abandoned ''a'') = Some Failed \<and>
   map_option error (job_after abandoned ''a'') = Some (Some timeout_error) \<and>
   map_option progress (job_after abandoned ''a'') = Some Missing \<and>
   map_option status (job_after (abandoned @ [Hook ''a'' downloading_event]) ''a'') =
     Some Failed \<and>
   map_option progress (job_after (abandoned @ [Hook ''a'' downloading_event]) ''a'') =
     Some (Val '' 99.0%'') \<and>
   map_option speed (job_after (abandoned @ [Hook ''a'' downloading_event]) ''a'') =
     Some PyNone \<and>
   map_option status
     (job_after (abandoned @ [Hook ''a'' downloading_event, Hook ''a'' finished_event]) ''a'') =
     Some Processing \<and>
   map_option message
     (job_after (abandoned @ [Hook ''a'' downloading_event, Hook ''a'' finished_event]) ''a'') =
     Some (Msg ''Processing downloaded file...'')"
  by (simp add: slow_download_downloads)
     (simp add: run_defs abandoned_def slow_download_def small_info_def downloads_def
        may_call_hook_def downloading_event_def finished_event_def)

text \<open>
  C5: a job whose extraction exceeds the timeout of 600 seconds ends in status failed
  with the timeout error. The code does otherwise for a download that goes on after the
  timeout: the task marks the job failed and is over, the abandoned worker reports that
  the download has finished and ends, and the record is left in status processing, with
  the timeout error still in it and no task or worker left to change it.
\<close>

theorem timed_out_job_ends_processing:
  "timeout_duration = 600 \<and> elapsed slow_download = 700 \<and>
   map_option status (job_after abandoned ''a'') = Some Failed \<and>
   map_option status (job_after (abandoned @ [Hook ''a'' finished_event, Exit ''a'']) ''a'') =
     Some Processing \<and>
   map_option error (job_after (abandoned @ [Hook ''a'' finished_event, Exit ''a'']) ''a'') =
     Some (Some timeout_error) \<and>
   map_option end_time (job_after (abandoned @ [Hook ''a'' finished_event, Exit ''a'']) ''a'') =
     Some (Some 600) \<and>
   task_after (abandoned @ [Hook ''a'' finished_event, Exit ''a'']) ''a'' = Some Done \<and>
   map_option worker_count (run init (abandoned @ [Hook ''a'' finished_event, Exit ''a''])) =
     Some 0"
  by (simp add: run_defs task_after_def worker_count_def abandoned_def slow_download_def
      small_info_def downloads_def may_call_hook_def finished_event_def)

text \<open>
  C7: at most 5 jobs are in status processing at any time, whatever the burst of
  submissions (\<^verbatim>\<open>asyncio.Semaphore(5)  # Max 5 concurrent downloads\<close>). The code does
  otherwise: the task of a timed-out job releases its permit while its worker goes on
  downloading, so that with six submissions six worker threads run at once, and when the
  abandoned worker reports that its download has finished six records are in status
  processing.
\<close>

theorem late_hook_exceeds_capacity:
  "map_option semaphore (run init burst) = Some 0 \<and>
   map_option worker_count (run init burst) = Some 6 \<and>
   map_option processing_count (run init burst) = Some 5 \<and>
   map_option processing_count (run init (burst @ [Hook ''a'' finished_event])) = Some 6"
  by (simp add: run_defs burst_def slow_download_def small_info_def downloads_def
      may_call_hook_def finished_event_def processing_count_def worker_count_def
      count_where_def)

section \<open>The health endpoint\<close>

text \<open>
  C9, as claimed: every job accepted by submit is in the count of the health endpoint
  from its acceptance on. It fails: after a submission alone the job waits for the
  semaphore and the count is 0.
\<close>

theorem health_omits_queued_job:
  "map_option health_check (run init submitted) = Some 0 \<and>
   map_option (\<lambda>s. map_of (tasks s) ''a'') (run init submitted) = Some (Some (Waiting yt_request))"
  by (simp add: run_defs submitted_def health_check_def)

text \<open>
  C9, amended: the health endpoint returns the number of records of the job table, which
  is the number of jobs admitted so far, that is the records in status processing,
  completed and failed together; no event removes a record or lowers the count. A
  submission leaves the count as it is, and the admission of the job raises it by one.
\<close>

theorem health_counts_admitted_jobs:
  assumes "run init es = Some s"
  shows "health_check s = count_where (\<lambda>t. \<not> is_waiting t) (tasks s) \<and>
         health_check s =
           count_where (\<lambda>r. status r = Processing) (active_downloads s) +
           count_where (\<lambda>r. status r = Completed) (active_downloads s) +
           count_where (\<lambda>r. status r = Failed) (active_downloads s) \<and>
         (\<forall>e s'. step s e = Some s' \<longrightarrow>
            health_check s \<le> health_check s' \<and>
            (\<forall>i. map_of (active_downloads s) i \<noteq> None \<longrightarrow>
                 map_of (active_downloads s') i \<noteq> None)) \<and>
         (\<forall>i request s'. step s (Submit i request) = Some s' \<longrightarrow>
            health_check s' = health_check s) \<and>
         (\<forall>i now s'. step s (Admit i now) = Some s' \<longrightarrow>
            health_check s' = health_check s + 1)"
proof -
  have i: "state_inv s" using assms by (rule inv_run)
  have ok: "job_ok s j" for j using i by (simp add: state_inv_def)
  from i have a: "health_check s = count_where (\<lambda>t. \<not> is_waiting t) (tasks s)"
    by (simp add: state_inv_def health_check_def)
  from i have d: "distinct (map fst (active_downloads s))" by (simp add: state_inv_def)
  have "status (snd kv) = Processing \<or> status (snd kv) = Completed \<or> status (snd kv) = Failed"
    if "kv \<in> set (active_downloads s)" for kv
  proof -
    from that d have "map_of (active_downloads s) (fst kv) = Some (snd kv)" by simp
    with ok[of "fst kv"] show ?thesis by (rule record_not_queued)
  qed
  then have b: "health_check s =
           count_where (\<lambda>r. status r = Processing) (active_downloads s) +
           count_where (\<lambda>r. status r = Completed) (active_downloads s) +
           count_where (\<lambda>r. status r = Failed) (active_downloads s)"
    unfolding health_check_def by (intro length_by_status) blast
  have c: "health_check s \<le> health_check s' \<and>
            (\<forall>j. map_of (active_downloads s) j \<noteq> None \<longrightarrow>
                 map_of (active_downloads s') j \<noteq> None)"
    if "step s e = Some s'" for e s'
  proof (cases e)
    case (Submit j request)
    with that step_SubmitE[of s j request s'] show ?thesis by (auto simp: health_check_def)
  next
    case (Admit j now)
    with that step_AdmitE[of s j now s'] ok[of j] show ?thesis
      by (auto simp: health_check_def update_conv' job_ok_def length_update_new)
  next
    case (Hook j d)
    with that step_HookE[of s j d s'] show ?thesis
      by (auto simp: health_check_def update_conv' length_update_old)
  next
    case (Finish j env now)
    with that step_FinishE[of s j env now s'] show ?thesis
      by (auto simp: health_check_def update_conv' length_update_old)
  next
    case (Exit j)
    with that step_ExitE[of s j s'] show ?thesis by (auto simp: health_check_def)
  qed
  have e: "health_check s' = health_check s" if "step s (Submit j request) = Some s'" for j request s'
    using step_SubmitE[OF that] by (auto simp: health_check_def)
  have f: "health_check s' = health_check s + 1" if "step s (Admit j now) = Some s'" for j now s'
    using step_AdmitE[OF that] ok[of j]
    by (auto simp: health_check_def job_ok_def length_update_new)
  from a b c e f show ?thesis by blast
qed

theorem health_counts_admitted_jobs_witness:
  "run init admitted = Some admitted_state \<and> health_check admitted_state = 1 \<and>
   count_where (\<lambda>t. \<not> is_waiting t) (tasks admitted_state) = 1"
proof -
  have h: "run init admitted = Some admitted_state"
    by (simp add: admitted_def init_def admitted_state_def)
  show ?thesis
    using h health_counts_admitted_jobs [OF h]
    by (simp add: admitted_state_def count_where_def is_waiting_def)
qed

section \<open>Size check and timeout of one extraction\<close>

lemma execute_download_Inr:
  assumes "execute_download u opts i env = Inr res"
  shows "\<not> elapsed env > timeout_duration \<and>
         (\<exists>pre. inspect env = Inr pre \<and> (\<forall>n. filesize pre = Val n \<longrightarrow> n = 0 \<or> n \<le> max_file_size)) \<and>
         (\<exists>ext. find_downloaded (files env) = Some (ext, file_size res))"
  using assms
  by (auto simp: execute_download_def download_sync_def Let_def
      split: if_splits sum.splits option.splits field.splits prod.splits)

text \<open>
  C3, as claimed: the file size of every completed result is at most the maximum. It
  fails: the only size check is the preflight one, on the size the extractor reports; a
  job whose preflight reports no size and whose file has 600 MB is completed with that
  size recorded.
\<close>

theorem completed_size_unbounded:
  "map_option status (job_after completed ''a'') = Some Completed \<and>
   map_option recorded_size (job_after completed ''a'') = Some (Some 629145600) \<and>
   \<not> (629145600 \<le> max_file_size)"
  by (simp add: run_defs completed_def unsized_run_def small_info_def recorded_size_def)

text \<open>
  C3, amended: for every job that reaches status completed, the size that the preflight
  inspect reported, when it reported one, is at most the maximum of 500 * 1024 * 1024
  bytes; the file size recorded in the result is the size of the located file, which no
  check bounds.
\<close>

theorem completed_preflight_bound:
  assumes "step s (Finish i env now) = Some s'" "map_of (active_downloads s') i = Some r'"
    "status r' = Completed"
  shows "max_file_size = 500 * 1024 * 1024 \<and>
         (\<exists>pre. inspect env = Inr pre \<and> (\<forall>n. filesize pre = Val n \<longrightarrow> n \<le> max_file_size)) \<and>
         (\<exists>ext n. find_downloaded (files env) = Some (ext, n) \<and> recorded_size r' = Some n)"
proof -
  from step_FinishE[OF assms(1)] obtain request r where
    s': "active_downloads s' = AList.update i
                (finish_record r
                   (execute_download (url request) (extractor_options request i) i env) now)
                (active_downloads s)"
    by auto
  from s' assms(2) have r': "r' = finish_record r
                   (execute_download (url request) (extractor_options request i) i env) now"
    by (simp add: update_conv')
  with assms(3) obtain res where
    res: "execute_download (url request) (extractor_options request i) i env = Inr res"
    by (cases "execute_download (url request) (extractor_options request i) i env")
       (simp_all add: finish_record_fields)
  from r' res have "recorded_size r' = Some (file_size res)"
    by (simp add: recorded_size_def finish_record_fields)
  moreover have "0 \<le> max_file_size" by (simp add: max_file_size_def)
  ultimately show ?thesis using execute_download_Inr[OF res]
    by (auto simp: max_file_size_def)
qed

theorem completed_preflight_bound_witness:
  "map_option status (job_after completed ''a'') = Some Completed \<and>
   inspect unsized_run = Inr small_info \<and> filesize small_info = Missing \<and>
   find_downloaded (files unsized_run) = Some (''mp4'', 629145600) \<and>
   map_option recorded_size (job_after completed ''a'') = Some (Some 629145600)"
proof -
  let ?s' = "the (step admitted_state (Finish ''a'' unsized_run 10))"
  let ?r' = "the (map_of (active_downloads ?s') ''a'')"
  have h1: "step admitted_state (Finish ''a'' unsized_run 10) = Some ?s'"
    by (simp add: admitted_state_def)
  have h2: "map_of (active_downloads ?s') ''a'' = Some ?r'"
    by (simp add: admitted_state_def)
  have h3: "status ?r' = Completed"
    by (simp add: admitted_state_def run_defs unsized_run_def small_info_def)
  show ?thesis
    using completed_preflight_bound [OF h1 h2 h3]
    by (simp add: run_defs completed_def unsized_run_def small_info_def recorded_size_def)
qed




text \<open>
  C10: when the inspect result has no file size, or \<^verbatim>\<open>None\<close>, or 0, the size check
  does not raise: the extractor is called in download mode, no size error arises from
  the extraction, and when the download returns in time the result records the size of
  the located file, whatever it is.
\<close>

theorem unsized_preflight_downloads_unchecked:
  assumes "inspect env = Inr pre"
    "filesize pre = Missing \<or> filesize pre = PyNone \<or> filesize pre = Val 0"
  shows "download_sync env =
           ([Extract_info False, Extract_info True],
            case fetch env of Inl m \<Rightarrow> Inl (Extractor_raised m) | Inr got \<Rightarrow> Inr got) \<and>
         (\<forall>n. snd (download_sync env) \<noteq> Inl (Size_exceeds n)) \<and>
         (\<forall>n. execute_download u opts i env \<noteq>
                Inl (HTTPException 500 (Download_failed (Size_exceeds n)))) \<and>
         (\<forall>got ext n. fetch env = Inr got \<and> \<not> elapsed env > timeout_duration \<and>
              find_downloaded (files env) = Some (ext, n) \<longrightarrow>
              (\<exists>res. execute_download u opts i env = Inr res \<and> file_size res = n))"
proof -
  have d: "download_sync env =
           ([Extract_info False, Extract_info True],
            case fetch env of Inl m \<Rightarrow> Inl (Extractor_raised m) | Inr got \<Rightarrow> Inr got)"
    using assms by (auto simp: download_sync_def)
  have a: "snd (download_sync env) \<noteq> Inl (Size_exceeds n)" for n
    by (simp add: d split: sum.splits)
  have b: "execute_download u opts i env \<noteq>
                Inl (HTTPException 500 (Download_failed (Size_exceeds n)))" for n
    using a[of n]
    by (auto simp: execute_download_def timeout_error_def split: sum.splits option.splits)
  have c: "\<exists>res. execute_download u opts i env = Inr res \<and> file_size res = n"
    if "fetch env = Inr got \<and> \<not> elapsed env > timeout_duration \<and>
        find_downloaded (files env) = Some (ext, n)" for got ext n
    using that by (simp add: execute_download_def d)
  from d a b c show ?thesis by blast
qed

theorem unsized_preflight_downloads_unchecked_witness:
  "inspect unsized_run = Inr small_info \<and> filesize small_info = Missing \<and>
   fst (download_sync unsized_run) = [Extract_info False, Extract_info True] \<and>
   map_option recorded_size (job_after completed ''a'') = Some (Some 629145600) \<and>
   629145600 > max_file_size"
proof -
  have h1: "inspect unsized_run = Inr small_info" by (simp add: unsized_run_def)
  have h2: "filesize small_info = Missing \<or> filesize small_info = PyNone \<or>
            filesize small_info = Val 0"
    by (simp add: small_info_def)
  show ?thesis
    using h1 unsized_preflight_downloads_unchecked [OF h1 h2, of "''u''" Map.empty "''a''"]
    by (simp add: run_defs completed_def unsized_run_def small_info_def recorded_size_def)
qed

end
